theory Spec2Isabelle
  imports Main
begin

section \<open>Python values\<close>

text \<open>
  The handlers of \<^verbatim>\<open>src/lambda_function.py\<close> and \<^verbatim>\<open>src/user_handler.py\<close> receive an
  API-gateway event: a Python \<^verbatim>\<open>dict\<close> whose values are what a JSON document decodes to.
  A \<^verbatim>\<open>dict\<close> is an association list in insertion order with distinct keys; a \<^verbatim>\<open>str\<close> is
  a \<open>string\<close>, one \<open>char\<close> for each code point below 256. Python floats are not
  represented: no value of this type is a float.
\<close>

datatype json =
    JNull
  | JBool bool
  | JInt int
  | JStr string
  | JList "json list"
  | JObj "(string \<times> json) list"

type_synonym pydict = "(string \<times> json) list"

text \<open>\<^verbatim>\<open>d.get(k)\<close> and \<^verbatim>\<open>d.get(k, default)\<close> on a dict.\<close>

definition dict_get :: "pydict \<Rightarrow> string \<Rightarrow> json" where
  "dict_get d k = (case map_of d k of None \<Rightarrow> JNull | Some v \<Rightarrow> v)"

definition dict_get_default :: "pydict \<Rightarrow> string \<Rightarrow> json \<Rightarrow> json" where
  "dict_get_default d k dflt = (case map_of d k of None \<Rightarrow> dflt | Some v \<Rightarrow> v)"

text \<open>\<^verbatim>\<open>d[k] = v\<close>: an existing key keeps its place, a new key goes to the end.\<close>

fun dict_set :: "pydict \<Rightarrow> string \<Rightarrow> json \<Rightarrow> pydict" where
  "dict_set [] k v = [(k, v)]"
| "dict_set ((k', v') # d) k v =
     (if k' = k then (k, v) # d else (k', v') # dict_set d k v)"

text \<open>Truth value of a Python object, as \<^verbatim>\<open>or\<close> tests it.\<close>

fun truthy :: "json \<Rightarrow> bool" where
  "truthy JNull = False"
| "truthy (JBool b) = b"
| "truthy (JInt n) = (n \<noteq> 0)"
| "truthy (JStr s) = (s \<noteq> [])"
| "truthy (JList xs) = (xs \<noteq> [])"
| "truthy (JObj d) = (d \<noteq> [])"

subsection \<open>Exceptions\<close>

text \<open>
  One pydantic error of \<^verbatim>\<open>ValidationError.errors()\<close>: its \<^verbatim>\<open>type\<close>, the field of its
  \<^verbatim>\<open>loc\<close>, its \<^verbatim>\<open>msg\<close> and its \<^verbatim>\<open>input\<close>. The entries \<^verbatim>\<open>ctx\<close> and \<^verbatim>\<open>url\<close> (which
  embeds the version of the library) are left out.
\<close>

record verror =
  etype :: string
  eloc :: string
  emsg :: string
  einput :: json

datatype exn =
    AttributeError string
  | TypeError string
  | KeyError string
  | JSONDecodeError
  | ValidationError string "verror list"

fun exn_name :: "exn \<Rightarrow> string" where
  "exn_name (AttributeError _) = ''AttributeError''"
| "exn_name (TypeError _) = ''TypeError''"
| "exn_name (KeyError _) = ''KeyError''"
| "exn_name JSONDecodeError = ''JSONDecodeError''"
| "exn_name (ValidationError _ _) = ''ValidationError''"

definition verror_json :: "verror \<Rightarrow> json" where
  "verror_json e = JObj [(''type'', JStr (etype e)), (''loc'', JList [JStr (eloc e)]),
     (''msg'', JStr (emsg e)), (''input'', einput e)]"

section \<open>\<^verbatim>\<open>json.dumps\<close>\<close>

text \<open>
  \<^verbatim>\<open>json.dumps\<close> with its default arguments: separators \<^verbatim>\<open>", "\<close> and \<^verbatim>\<open>": "\<close>,
  \<^verbatim>\<open>ensure_ascii=True\<close>, so every character outside \<^verbatim>\<open>' '..'~'\<close> is written as an escape.
  The interpreter refuses to print an integer of more than 4300 digits; the values that
  the handlers print come from decoded text, where no such integer occurs.
\<close>

definition hex_digit :: "nat \<Rightarrow> char" where
  "hex_digit n = ''0123456789abcdef'' ! (n mod 16)"

definition dec_digit :: "nat \<Rightarrow> char" where
  "dec_digit n = ''0123456789'' ! (n mod 10)"

fun dec_nat :: "nat \<Rightarrow> string" where
  "dec_nat n = (if n < 10 then [dec_digit n] else dec_nat (n div 10) @ [dec_digit (n mod 10)])"

declare dec_nat.simps [simp del]

definition dec_int :: "int \<Rightarrow> string" where
  "dec_int i = (if i < 0 then CHR ''-'' # dec_nat (nat (- i)) else dec_nat (nat i))"

definition escape_char :: "char \<Rightarrow> string" where
  "escape_char c =
     (if c = CHR ''\"'' then [CHR 0x5C, CHR ''\"'']
      else if c = CHR 0x5C then [CHR 0x5C, CHR 0x5C]
      else if c = CHR 0x0A then [CHR 0x5C, CHR ''n'']
      else if c = CHR 0x0D then [CHR 0x5C, CHR ''r'']
      else if c = CHR 0x09 then [CHR 0x5C, CHR ''t'']
      else if c = CHR 0x08 then [CHR 0x5C, CHR ''b'']
      else if c = CHR 0x0C then [CHR 0x5C, CHR ''f'']
      else if 32 \<le> (of_char c :: nat) \<and> (of_char c :: nat) \<le> 126 then [c]
      else [CHR 0x5C, CHR ''u'', CHR ''0'', CHR ''0'',
            hex_digit ((of_char c :: nat) div 16), hex_digit ((of_char c :: nat) mod 16)])"

definition dumps_str :: "string \<Rightarrow> string" where
  "dumps_str s = CHR ''\"'' # concat (map escape_char s) @ [CHR ''\"'']"

fun join_comma :: "string list \<Rightarrow> string" where
  "join_comma [] = []"
| "join_comma [x] = x"
| "join_comma (x # y # ys) = x @ '', '' @ join_comma (y # ys)"

fun json_dumps :: "json \<Rightarrow> string" where
  "json_dumps JNull = ''null''"
| "json_dumps (JBool b) = (if b then ''true'' else ''false'')"
| "json_dumps (JInt i) = dec_int i"
| "json_dumps (JStr s) = dumps_str s"
| "json_dumps (JList xs) = ''['' @ join_comma (map json_dumps xs) @ '']''"
| "json_dumps (JObj d) =
     ''{'' @ join_comma (map (\<lambda>kv. dumps_str (fst kv) @ '': '' @ json_dumps (snd kv)) d) @ ''}''"


section \<open>The user-lookup handler (\<^verbatim>\<open>src/user_handler.py\<close>)\<close>

subsection \<open>What the handler observes and what it writes\<close>

text \<open>
  The module-level \<^verbatim>\<open>logger\<close>, \<^verbatim>\<open>tracer\<close> and \<^verbatim>\<open>metrics\<close> objects are the state the handler
  writes to: the log lines, the keys appended to the logger, the metrics added, and the
  subsegments, annotations and metadata of the trace, each in the order of the calls.
\<close>

datatype level = DEBUG | INFO | WARNING | ERROR

record log_entry =
  lvl :: level
  msg :: string
  extra :: pydict

record obs =
  logs :: "log_entry list"
  appended_keys :: pydict
  metrics :: "(string \<times> int) list"
  subsegments :: "string list"
  annotations :: pydict
  metadata :: "(string \<times> string \<times> json) list"

definition log :: "level \<Rightarrow> string \<Rightarrow> pydict \<Rightarrow> obs \<Rightarrow> obs" where
  "log l m ex s = s\<lparr>logs := logs s @ [\<lparr>lvl = l, msg = m, extra = ex\<rparr>]\<rparr>"

definition append_keys :: "string \<Rightarrow> json \<Rightarrow> obs \<Rightarrow> obs" where
  "append_keys k v s = s\<lparr>appended_keys := dict_set (appended_keys s) k v\<rparr>"

definition add_metric :: "string \<Rightarrow> int \<Rightarrow> obs \<Rightarrow> obs" where
  "add_metric n v s = s\<lparr>metrics := metrics s @ [(n, v)]\<rparr>"

definition begin_subsegment :: "string \<Rightarrow> obs \<Rightarrow> obs" where
  "begin_subsegment n s = s\<lparr>subsegments := subsegments s @ [n]\<rparr>"

definition put_annotation :: "string \<Rightarrow> json \<Rightarrow> obs \<Rightarrow> obs" where
  "put_annotation k v s = s\<lparr>annotations := annotations s @ [(k, v)]\<rparr>"

definition put_metadata :: "string \<Rightarrow> json \<Rightarrow> string \<Rightarrow> obs \<Rightarrow> obs" where
  "put_metadata k v ns s = s\<lparr>metadata := metadata s @ [(ns, k, v)]\<rparr>"

text \<open>
  What the handler reads from outside: the two module constants read from the
  environment, the 128-bit integer of the UUID that \<^verbatim>\<open>uuid4()\<close> would return, the value of
  the cold-start expression over the metrics object, and the text \<^verbatim>\<open>str(e)\<close> of an
  exception, which the libraries render.
\<close>

record env =
  SERVICE_NAME :: string
  STAGE :: string
  uuid4 :: nat
  cold_start :: bool
  exn_str :: "exn \<Rightarrow> string"

text \<open>\<^verbatim>\<open>str(uuid)\<close>: the 32 hexadecimal digits of the integer, grouped 8-4-4-4-12.\<close>

fun hex_digits :: "nat \<Rightarrow> nat \<Rightarrow> string" where
  "hex_digits 0 n = []"
| "hex_digits (Suc k) n = hex_digits k (n div 16) @ [hex_digit n]"

definition hex32 :: "nat \<Rightarrow> string" where
  "hex32 n = hex_digits 32 n"

definition str_uuid :: "nat \<Rightarrow> string" where
  "str_uuid n = (let h = hex32 n in
     take 8 h @ ''-'' @ take 4 (drop 8 h) @ ''-'' @ take 4 (drop 12 h) @ ''-''
       @ take 4 (drop 16 h) @ ''-'' @ drop 20 h)"

text \<open>
  \<^verbatim>\<open>x.get(k)\<close> and \<^verbatim>\<open>x.get(k, default)\<close> on an arbitrary object: only a dict has the
  method. The lambda context is an object; reading an attribute it does not have raises.
\<close>

fun py_get :: "json \<Rightarrow> string \<Rightarrow> exn + json" where
  "py_get (JObj d) k = Inr (dict_get d k)"
| "py_get _ k = Inl (AttributeError ''get'')"

fun py_get_default :: "json \<Rightarrow> string \<Rightarrow> json \<Rightarrow> exn + json" where
  "py_get_default (JObj d) k dflt = Inr (dict_get_default d k dflt)"
| "py_get_default _ k dflt = Inl (AttributeError ''get'')"

type_synonym lambda_context = pydict

definition getattr :: "lambda_context \<Rightarrow> string \<Rightarrow> exn + json" where
  "getattr c a = (case map_of c a of None \<Rightarrow> Inl (AttributeError a) | Some v \<Rightarrow> Inr v)"

subsection \<open>The pydantic models\<close>

text \<open>
  \<^verbatim>\<open>UserRequest(user_id=v)\<close>: the field is a \<^verbatim>\<open>str\<close> of 1 to 50 characters. Pydantic (version
  2, as \<^verbatim>\<open>model_dump_json\<close> shows) takes no number, boolean, list, dict or \<^verbatim>\<open>None\<close> for a
  \<^verbatim>\<open>str\<close>.
\<close>

record UserRequest =
  user_id :: string

record UserResponse =
  r_user_id :: string
  r_name :: string
  r_email :: string
  r_status :: string

definition UserRequest_new :: "json \<Rightarrow> exn + UserRequest" where
  "UserRequest_new v =
     (case v of
        JStr s \<Rightarrow>
          if length s < 1 then
            Inl (ValidationError ''UserRequest''
              [\<lparr>etype = ''string_too_short'', eloc = ''user_id'',
                emsg = ''String should have at least 1 character'', einput = v\<rparr>])
          else if 50 < length s then
            Inl (ValidationError ''UserRequest''
              [\<lparr>etype = ''string_too_long'', eloc = ''user_id'',
                emsg = ''String should have at most 50 characters'', einput = v\<rparr>])
          else Inr \<lparr>user_id = s\<rparr>
      | _ \<Rightarrow>
          Inl (ValidationError ''UserRequest''
            [\<lparr>etype = ''string_type'', eloc = ''user_id'',
              emsg = ''Input should be a valid string'', einput = v\<rparr>]))"

text \<open>
  \<^verbatim>\<open>model_dump_json()\<close> writes compact JSON (no space after \<^verbatim>\<open>,\<close> and \<^verbatim>\<open>:\<close>) and escapes
  only the quote, the backslash and the control characters.
\<close>

definition escape_char_compact :: "char \<Rightarrow> string" where
  "escape_char_compact c =
     (if c = CHR ''\"'' then [CHR 0x5C, CHR ''\"'']
      else if c = CHR 0x5C then [CHR 0x5C, CHR 0x5C]
      else if c = CHR 0x0A then [CHR 0x5C, CHR ''n'']
      else if c = CHR 0x0D then [CHR 0x5C, CHR ''r'']
      else if c = CHR 0x09 then [CHR 0x5C, CHR ''t'']
      else if c = CHR 0x08 then [CHR 0x5C, CHR ''b'']
      else if c = CHR 0x0C then [CHR 0x5C, CHR ''f'']
      else if (of_char c :: nat) < 32 then
        [CHR 0x5C, CHR ''u'', CHR ''0'', CHR ''0'',
         hex_digit ((of_char c :: nat) div 16), hex_digit ((of_char c :: nat) mod 16)]
      else [c])"

definition dumps_str_compact :: "string \<Rightarrow> string" where
  "dumps_str_compact s = CHR ''\"'' # concat (map escape_char_compact s) @ [CHR ''\"'']"

definition model_dump_json :: "UserResponse \<Rightarrow> string" where
  "model_dump_json r =
     ''{'' @ dumps_str_compact ''user_id'' @ '':'' @ dumps_str_compact (r_user_id r)
     @ '','' @ dumps_str_compact ''name'' @ '':'' @ dumps_str_compact (r_name r)
     @ '','' @ dumps_str_compact ''email'' @ '':'' @ dumps_str_compact (r_email r)
     @ '','' @ dumps_str_compact ''status'' @ '':'' @ dumps_str_compact (r_status r) @ ''}''"


text \<open>\<^verbatim>\<open>UserResponse(user_id=.., name=.., email=.., status=..)\<close>: four \<^verbatim>\<open>str\<close> fields.\<close>

definition str_field :: "string \<Rightarrow> json \<Rightarrow> verror list" where
  "str_field f v = (case v of JStr _ \<Rightarrow> []
     | _ \<Rightarrow> [\<lparr>etype = ''string_type'', eloc = f,
              emsg = ''Input should be a valid string'', einput = v\<rparr>])"

definition the_str :: "json \<Rightarrow> string" where
  "the_str v = (case v of JStr s \<Rightarrow> s | _ \<Rightarrow> [])"

definition UserResponse_new :: "json \<Rightarrow> json \<Rightarrow> json \<Rightarrow> json \<Rightarrow> exn + UserResponse" where
  "UserResponse_new u n e st =
     (let errs = str_field ''user_id'' u @ str_field ''name'' n
                 @ str_field ''email'' e @ str_field ''status'' st
      in if errs = [] then
           Inr \<lparr>r_user_id = the_str u, r_name = the_str n, r_email = the_str e,
                r_status = the_str st\<rparr>
         else Inl (ValidationError ''UserResponse'' errs))"

text \<open>\<^verbatim>\<open>d[k]\<close> on a dict.\<close>

definition subscript :: "pydict \<Rightarrow> string \<Rightarrow> exn + json" where
  "subscript d k = (case map_of d k of None \<Rightarrow> Inl (KeyError k) | Some v \<Rightarrow> Inr v)"

subsection \<open>The database stub and the handler\<close>

text \<open>\<^verbatim>\<open>@tracer.capture_method\<close> opens a subsegment named after the function at each call.\<close>

definition get_user_from_database :: "string \<Rightarrow> obs \<Rightarrow> pydict \<times> obs" where
  "get_user_from_database uid s =
     (let s0 = begin_subsegment ''## get_user_from_database'' s;
          s1 = put_annotation ''user_id'' (JStr uid) s0;
          s2 = put_metadata ''operation'' (JStr ''get_user'') ''database'' s1;
          s3 = log DEBUG ''Fetching user from database'' [(''user_id'', JStr uid)] s2
      in ([(''user_id'', JStr uid), (''name'', JStr ''John Doe''),
           (''email'', JStr ''john@example.com'')], s3))"

text \<open>Lines 54 to 58: the correlation id. \<^verbatim>\<open>or\<close> evaluates its right operand only when
  the left one is falsy.\<close>

definition correlation_id :: "env \<Rightarrow> pydict \<Rightarrow> exn + json" where
  "correlation_id en event =
     (case py_get (dict_get_default event ''headers'' (JObj [])) ''x-correlation-id'' of
        Inl e \<Rightarrow> Inl e
      | Inr h \<Rightarrow>
          if truthy h then Inr h
          else (case py_get (dict_get_default event ''requestContext'' (JObj [])) ''requestId'' of
                  Inl e \<Rightarrow> Inl e
                | Inr r \<Rightarrow> if truthy r then Inr r else Inr (JStr (str_uuid (uuid4 en)))))"

text \<open>Lines 66 to 74: the \<^verbatim>\<open>extra\<close> dict of the first log line, its entries evaluated in
  order.\<close>

definition request_received_extra :: "env \<Rightarrow> pydict \<Rightarrow> lambda_context \<Rightarrow> exn + pydict" where
  "request_received_extra en event context =
     (case getattr context ''function_name'' of
        Inl e \<Rightarrow> Inl e
      | Inr fname \<Rightarrow>
          (case getattr context ''request_id'' of
             Inl e \<Rightarrow> Inl e
           | Inr rid \<Rightarrow>
               Inr [(''api_name'', JStr (SERVICE_NAME en)), (''stage'', JStr (STAGE en)),
                    (''function_name'', fname), (''request_id'', rid),
                    (''http_method'', dict_get_default event ''httpMethod'' (JStr ''UNKNOWN'')),
                    (''route'', dict_get_default event ''path'' (JStr ''UNKNOWN'')),
                    (''cold_start'', JBool (cold_start en))]))"

text \<open>Lines 81 to 115: the body of the \<^verbatim>\<open>try\<close>. The state returned with an exception is
  the state at the point where it was raised. Lines 82 and 83 first: the argument of
  \<^verbatim>\<open>UserRequest\<close>.\<close>

definition path_user_id :: "pydict \<Rightarrow> exn + json" where
  "path_user_id event =
     (let pp = dict_get event ''pathParameters'';
          path_params = (if truthy pp then pp else JObj [])
      in py_get_default path_params ''user_id'' (JStr []))"

definition handler_try :: "json \<Rightarrow> pydict \<Rightarrow> obs \<Rightarrow> (exn + pydict) \<times> obs" where
  "handler_try cid event s =
     (case path_user_id event of
           Inl e \<Rightarrow> (Inl e, s)
         | Inr v \<Rightarrow>
        (case UserRequest_new v of
           Inl e \<Rightarrow> (Inl e, s)
         | Inr request \<Rightarrow>
        (case get_user_from_database (user_id request) s of (user_data, s1) \<Rightarrow>
        (case subscript user_data ''user_id'' of Inl e \<Rightarrow> (Inl e, s1) | Inr u \<Rightarrow>
        (case subscript user_data ''name'' of Inl e \<Rightarrow> (Inl e, s1) | Inr n \<Rightarrow>
        (case subscript user_data ''email'' of Inl e \<Rightarrow> (Inl e, s1) | Inr em \<Rightarrow>
        (case UserResponse_new u n em (JStr ''active'') of
           Inl e \<Rightarrow> (Inl e, s1)
         | Inr response_body \<Rightarrow>
             (let s2 = add_metric ''SuccessCount'' 1 s1;
                  s3 = log INFO ''Request successful''
                         [(''status_code'', JInt 200), (''user_id'', JStr (user_id request))] s2
              in (Inr [(''statusCode'', JInt 200),
                       (''headers'', JObj [(''Content-Type'', JStr ''application/json''),
                                          (''X-Correlation-Id'', cid)]),
                       (''body'', JStr (model_dump_json response_body))], s3)))))))))"

text \<open>Lines 117 to 133 and 135 to 151: the two \<^verbatim>\<open>except\<close> clauses.\<close>

definition on_validation_error :: "env \<Rightarrow> json \<Rightarrow> exn \<Rightarrow> verror list \<Rightarrow> obs \<Rightarrow> pydict \<times> obs" where
  "on_validation_error en cid e errs s =
     (let s1 = log WARNING ''Validation error''
                 [(''status_code'', JInt 400), (''error_code'', JStr ''ValidationError''),
                  (''error_message'', JStr (exn_str en e))] s;
          s2 = add_metric ''ValidationErrors'' 1 s1
      in ([(''statusCode'', JInt 400),
           (''headers'', JObj [(''X-Correlation-Id'', cid)]),
           (''body'', JStr (json_dumps (JObj [(''error'', JStr ''Invalid request''),
                                              (''details'', JList (map verror_json errs))])))],
          s2))"

definition on_exception :: "env \<Rightarrow> json \<Rightarrow> exn \<Rightarrow> obs \<Rightarrow> pydict \<times> obs" where
  "on_exception en cid e s =
     (let s1 = log ERROR ''Unhandled exception''
                 [(''status_code'', JInt 500), (''error_code'', JStr (exn_name e)),
                  (''error_message'', JStr (exn_str en e))] s;
          s2 = add_metric ''ServerErrors'' 1 s1
      in ([(''statusCode'', JInt 500),
           (''headers'', JObj [(''X-Correlation-Id'', cid)]),
           (''body'', JStr (json_dumps (JObj [(''error'', JStr ''Internal server error'')])))],
          s2))"

text \<open>
  The body of \<^verbatim>\<open>handler\<close>. \<open>Inl\<close> is an exception that leaves the function: the
  statements before the \<^verbatim>\<open>try\<close> are under no \<^verbatim>\<open>except\<close> clause. The three decorators
  belong to the library and are not part of the model.
\<close>

definition handler :: "env \<Rightarrow> pydict \<Rightarrow> lambda_context \<Rightarrow> obs \<Rightarrow> (exn + pydict) \<times> obs" where
  "handler en event context s =
     (case correlation_id en event of
        Inl e \<Rightarrow> (Inl e, s)
      | Inr cid \<Rightarrow>
          (let s1 = append_keys ''correlation_id'' cid s
           in case request_received_extra en event context of
                Inl e \<Rightarrow> (Inl e, s1)
              | Inr ex \<Rightarrow>
                  (let s2 = log INFO ''Request received'' ex s1;
                       s3 = add_metric ''RequestCount'' 1 s2
                   in case handler_try cid event s3 of
                        (Inr resp, s4) \<Rightarrow> (Inr resp, s4)
                      | (Inl (ValidationError t errs), s4) \<Rightarrow>
                          (case on_validation_error en cid (ValidationError t errs) errs s4 of
                             (resp, s5) \<Rightarrow> (Inr resp, s5))
                      | (Inl e, s4) \<Rightarrow>
                          (case on_exception en cid e s4 of (resp, s5) \<Rightarrow> (Inr resp, s5)))))"


section \<open>\<^verbatim>\<open>json.loads\<close>\<close>

text \<open>
  The decoder of the standard library on a \<^verbatim>\<open>str\<close>, read from left to right as the
  library's scanner does. A scan ends in a value and the rest of the text, in a
  \<^verbatim>\<open>JSONDecodeError\<close>, or outside what this theory represents: a number with a fraction
  or an exponent and the tokens \<^verbatim>\<open>NaN\<close>, \<^verbatim>\<open>Infinity\<close>, \<^verbatim>\<open>-Infinity\<close> (floats), an escape
  \<^verbatim>\<open>\uXXXX\<close> of a code point above 255, or an integer of more than 4300 digits (which
  the interpreter refuses to convert). The interpreter's limit on recursion is not
  modelled.
\<close>

datatype 'a scan = Scanned 'a string | Malformed | Unsupported

fun scan_map :: "('a \<Rightarrow> 'b) \<Rightarrow> 'a scan \<Rightarrow> 'b scan" where
  "scan_map f (Scanned x r) = Scanned (f x) r"
| "scan_map f Malformed = Malformed"
| "scan_map f Unsupported = Unsupported"

definition is_ws :: "char \<Rightarrow> bool" where
  "is_ws c = (c = CHR '' '' \<or> c = CHR 0x09 \<or> c = CHR 0x0A \<or> c = CHR 0x0D)"

definition skip_ws :: "string \<Rightarrow> string" where
  "skip_ws s = dropWhile is_ws s"

definition digit_val :: "char \<Rightarrow> nat option" where
  "digit_val c = (let n = (of_char c :: nat) in if 48 \<le> n \<and> n \<le> 57 then Some (n - 48) else None)"

definition is_digit :: "char \<Rightarrow> bool" where
  "is_digit c = (digit_val c \<noteq> None)"

definition hex_val :: "char \<Rightarrow> nat option" where
  "hex_val c = (let n = (of_char c :: nat) in
     if 48 \<le> n \<and> n \<le> 57 then Some (n - 48)
     else if 97 \<le> n \<and> n \<le> 102 then Some (n - 87)
     else if 65 \<le> n \<and> n \<le> 70 then Some (n - 55)
     else None)"

definition hex4 :: "char \<Rightarrow> char \<Rightarrow> char \<Rightarrow> char \<Rightarrow> nat option" where
  "hex4 a b c d =
     (case (hex_val a, hex_val b, hex_val c, hex_val d) of
        (Some w, Some x, Some y, Some z) \<Rightarrow> Some (((w * 16 + x) * 16 + y) * 16 + z)
      | _ \<Rightarrow> None)"

text \<open>The character after a backslash, other than \<^verbatim>\<open>u\<close>.\<close>

definition unescape :: "char \<Rightarrow> char option" where
  "unescape e =
     (if e = CHR ''\"'' then Some (CHR ''\"'')
      else if e = CHR 0x5C then Some (CHR 0x5C)
      else if e = CHR ''/'' then Some (CHR ''/'')
      else if e = CHR ''b'' then Some (CHR 0x08)
      else if e = CHR ''f'' then Some (CHR 0x0C)
      else if e = CHR ''n'' then Some (CHR 0x0A)
      else if e = CHR ''r'' then Some (CHR 0x0D)
      else if e = CHR ''t'' then Some (CHR 0x09)
      else None)"

text \<open>The characters of a string, after its opening quote, up to the closing one. A
  control character is refused (the decoder is strict).\<close>

fun scan_string :: "string \<Rightarrow> string scan" where
  "scan_string [] = Malformed"
| "scan_string (c # r) =
     (if c = CHR ''\"'' then Scanned [] r
      else if c = CHR 0x5C then
        (case r of
           [] \<Rightarrow> Malformed
         | e # r1 \<Rightarrow>
             if e = CHR ''u'' then
               (case r1 of
                  h1 # h2 # h3 # h4 # r2 \<Rightarrow>
                    (case hex4 h1 h2 h3 h4 of
                       None \<Rightarrow> Malformed
                     | Some n \<Rightarrow>
                         if n < 256 then scan_map ((#) (char_of n)) (scan_string r2)
                         else Unsupported)
                | _ \<Rightarrow> Malformed)
             else
               (case unescape e of
                  None \<Rightarrow> Malformed
                | Some x \<Rightarrow> scan_map ((#) x) (scan_string r1)))
      else if (of_char c :: nat) < 32 then Malformed
      else scan_map ((#) c) (scan_string r))"

text \<open>A number: \<^verbatim>\<open>-?(0|[1-9][0-9]*)\<close>, a float when a fraction or an exponent follows.\<close>

definition nat_of_digits :: "string \<Rightarrow> nat" where
  "nat_of_digits ds = foldl (\<lambda>a c. 10 * a + the (digit_val c)) 0 ds"

definition float_follows :: "string \<Rightarrow> bool" where
  "float_follows r =
     (case r of
        [] \<Rightarrow> False
      | c # r1 \<Rightarrow>
          if c = CHR ''.'' then (case r1 of [] \<Rightarrow> False | d # _ \<Rightarrow> is_digit d)
          else if c = CHR ''e'' \<or> c = CHR ''E'' then
            (case r1 of
               [] \<Rightarrow> False
             | d # r2 \<Rightarrow>
                 if d = CHR ''+'' \<or> d = CHR ''-'' then
                   (case r2 of [] \<Rightarrow> False | d2 # _ \<Rightarrow> is_digit d2)
                 else is_digit d)
          else False)"

definition scan_int :: "bool \<Rightarrow> string \<Rightarrow> json scan" where
  "scan_int neg s =
     (case s of
        [] \<Rightarrow> Malformed
      | d # r \<Rightarrow>
          if \<not> is_digit d then Malformed
          else
            (let ds = (if d = CHR ''0'' then [d] else d # takeWhile is_digit r);
                 rest = (if d = CHR ''0'' then r else dropWhile is_digit r)
             in if float_follows rest \<or> 4300 < length ds then Unsupported
                else Scanned (JInt (if neg then - int (nat_of_digits ds)
                                    else int (nat_of_digits ds))) rest))"

definition starts_with :: "string \<Rightarrow> string \<Rightarrow> bool" where
  "starts_with p s = (take (length p) s = p)"

text \<open>
  One value, then the items of an array after its \<^verbatim>\<open>[\<close>, then the members of an object
  after its \<^verbatim>\<open>{\<close>. The first argument is the budget that makes the recursion
  structural: each call spends one, and with none left the scan stops as unsupported.
  The budget of \<open>json_loads\<close> is never used up (lemma \<open>json_loads_budget\<close> below).
\<close>

fun scan_once :: "nat \<Rightarrow> string \<Rightarrow> json scan"
  and scan_items :: "nat \<Rightarrow> string \<Rightarrow> json list scan"
  and scan_members :: "nat \<Rightarrow> string \<Rightarrow> (string \<times> json) list scan"
where
  "scan_once 0 s = Unsupported"
| "scan_once (Suc n) s =
     (case s of
        [] \<Rightarrow> Malformed
      | c # r \<Rightarrow>
          if c = CHR ''\"'' then scan_map JStr (scan_string r)
          else if c = CHR ''{'' then
            (if starts_with ''}'' (skip_ws r) then Scanned (JObj []) (drop 1 (skip_ws r))
             else scan_map (\<lambda>kvs. JObj (foldl (\<lambda>d kv. dict_set d (fst kv) (snd kv)) [] kvs))
                    (scan_members n (skip_ws r)))
          else if c = CHR ''['' then
            (if starts_with '']'' (skip_ws r) then Scanned (JList []) (drop 1 (skip_ws r))
             else scan_map JList (scan_items n (skip_ws r)))
          else if starts_with ''null'' s then Scanned JNull (drop 4 s)
          else if starts_with ''true'' s then Scanned (JBool True) (drop 4 s)
          else if starts_with ''false'' s then Scanned (JBool False) (drop 5 s)
          else if is_digit c then scan_int False s
          else if c = CHR ''-'' \<and> (case r of [] \<Rightarrow> False | d # _ \<Rightarrow> is_digit d)
            then scan_int True r
          else if starts_with ''NaN'' s \<or> starts_with ''Infinity'' s
                  \<or> starts_with ''-Infinity'' s then Unsupported
          else Malformed)"
| "scan_items 0 s = Unsupported"
| "scan_items (Suc n) s =
     (case scan_once n s of
        Scanned v r \<Rightarrow>
          (case skip_ws r of
             [] \<Rightarrow> Malformed
           | c # r1 \<Rightarrow>
               if c = CHR '']'' then Scanned [v] r1
               else if c = CHR '','' then scan_map ((#) v) (scan_items n (skip_ws r1))
               else Malformed)
      | Malformed \<Rightarrow> Malformed
      | Unsupported \<Rightarrow> Unsupported)"
| "scan_members 0 s = Unsupported"
| "scan_members (Suc n) s =
     (case s of
        [] \<Rightarrow> Malformed
      | q # r \<Rightarrow>
          if q \<noteq> CHR ''\"'' then Malformed
          else
            (case scan_string r of
               Scanned k r1 \<Rightarrow>
                 (case skip_ws r1 of
                    [] \<Rightarrow> Malformed
                  | c # r2 \<Rightarrow>
                      if c \<noteq> CHR '':'' then Malformed
                      else
                        (case scan_once n (skip_ws r2) of
                           Scanned v r3 \<Rightarrow>
                             (case skip_ws r3 of
                                [] \<Rightarrow> Malformed
                              | c2 # r4 \<Rightarrow>
                                  if c2 = CHR ''}'' then Scanned [(k, v)] r4
                                  else if c2 = CHR '','' then
                                    scan_map ((#) (k, v)) (scan_members n (skip_ws r4))
                                  else Malformed)
                         | Malformed \<Rightarrow> Malformed
                         | Unsupported \<Rightarrow> Unsupported))
             | Malformed \<Rightarrow> Malformed
             | Unsupported \<Rightarrow> Unsupported))"

text \<open>\<^verbatim>\<open>json.loads(s)\<close> for a \<^verbatim>\<open>str\<close>: one value between optional white space. \<open>None\<close>
  is a text outside the theory. The budget is twice the length of the text and one more:
  a level of nesting spends two and takes a character at least.\<close>

definition json_loads :: "string \<Rightarrow> (exn + json) option" where
  "json_loads s =
     (case scan_once (Suc (length s + length s)) (skip_ws s) of
        Scanned v r \<Rightarrow> if skip_ws r = [] then Some (Inr v) else Some (Inl JSONDecodeError)
      | Malformed \<Rightarrow> Some (Inl JSONDecodeError)
      | Unsupported \<Rightarrow> None)"


section \<open>The create-user handler (\<^verbatim>\<open>src/lambda_function.py\<close>)\<close>

text \<open>
  \<^verbatim>\<open>User(**body)\<close>: \<^verbatim>\<open>name\<close> and \<^verbatim>\<open>email\<close> are \<^verbatim>\<open>str\<close>, \<^verbatim>\<open>age\<close> is \<^verbatim>\<open>int\<close>; the errors of all
  fields are collected in the order of the fields (\<open>missing\<close> is the error of a field
  that the body lacks, whose input is the whole body), and keys that are no field are
  ignored. An \<^verbatim>\<open>int\<close> is taken as it is. What pydantic makes of another value given for
  \<^verbatim>\<open>age\<close> (a numeric string, a boolean) is the library's business: \<open>lax_int\<close> is that
  conversion, a parameter of the model, as is the text \<^verbatim>\<open>str(e)\<close> of an exception.
\<close>

record libs =
  lax_int :: "json \<Rightarrow> int option"
  str_exn :: "exn \<Rightarrow> string"

record User =
  name :: string
  email :: string
  age :: int

definition missing :: "string \<Rightarrow> pydict \<Rightarrow> verror" where
  "missing f d = \<lparr>etype = ''missing'', eloc = f, emsg = ''Field required'', einput = JObj d\<rparr>"

definition required_str :: "pydict \<Rightarrow> string \<Rightarrow> verror list" where
  "required_str d f =
     (case map_of d f of
        None \<Rightarrow> [missing f d]
      | Some v \<Rightarrow> str_field f v)"

definition int_value :: "libs \<Rightarrow> json \<Rightarrow> int option" where
  "int_value lb v = (case v of JInt i \<Rightarrow> Some i | _ \<Rightarrow> lax_int lb v)"

definition required_int :: "libs \<Rightarrow> pydict \<Rightarrow> string \<Rightarrow> verror list" where
  "required_int lb d f =
     (case map_of d f of
        None \<Rightarrow> [missing f d]
      | Some v \<Rightarrow>
          (case int_value lb v of
             Some _ \<Rightarrow> []
           | None \<Rightarrow> [\<lparr>etype = ''int_type'', eloc = f,
                        emsg = ''Input should be a valid integer'', einput = v\<rparr>]))"

definition User_new :: "libs \<Rightarrow> json \<Rightarrow> exn + User" where
  "User_new lb body =
     (case body of
        JObj d \<Rightarrow>
          (let errs = required_str d ''name'' @ required_str d ''email''
                      @ required_int lb d ''age''
           in if errs = [] then
                Inr \<lparr>name = the_str (dict_get d ''name''), email = the_str (dict_get d ''email''),
                     age = (case int_value lb (dict_get d ''age'') of Some i \<Rightarrow> i | None \<Rightarrow> 0)\<rparr>
              else Inl (ValidationError ''User'' errs))
      | _ \<Rightarrow> Inl (TypeError ''argument after ** must be a mapping''))"

definition model_dump :: "User \<Rightarrow> pydict" where
  "model_dump u = [(''name'', JStr (name u)), (''email'', JStr (email u)), (''age'', JInt (age u))]"

text \<open>Line 22: \<^verbatim>\<open>json.loads(event.get("body", "{}"))\<close>. Only a \<^verbatim>\<open>str\<close> is decoded.\<close>

definition loads_body :: "pydict \<Rightarrow> (exn + json) option" where
  "loads_body event =
     (case dict_get_default event ''body'' (JStr ''{}'') of
        JStr s \<Rightarrow> json_loads s
      | _ \<Rightarrow> Some (Inl (TypeError ''the JSON object must be str, bytes or bytearray'')))"

text \<open>Lines 20 to 35: the body of the \<^verbatim>\<open>try\<close>.\<close>

definition lambda_try :: "libs \<Rightarrow> pydict \<Rightarrow> obs \<Rightarrow> ((exn + pydict) \<times> obs) option" where
  "lambda_try lb event s =
     (case loads_body event of
        None \<Rightarrow> None
      | Some (Inl e) \<Rightarrow> Some (Inl e, s)
      | Some (Inr body) \<Rightarrow>
          (case User_new lb body of
             Inl e \<Rightarrow> Some (Inl e, s)
           | Inr user \<Rightarrow>
               (let s1 = log INFO ''User created'' [(''user'', JObj (model_dump user))] s
                in Some (Inr [(''statusCode'', JInt 201),
                              (''body'', JStr (json_dumps (JObj
                                 [(''message'', JStr ''User created successfully''),
                                  (''user'', JObj (model_dump user))])))], s1))))"

text \<open>
  \<^verbatim>\<open>lambda_handler\<close>: every exception of the \<^verbatim>\<open>try\<close> is caught by one of the two clauses,
  so the result is a response. \<open>None\<close> is a body outside the theory.
\<close>

definition lambda_handler :: "libs \<Rightarrow> pydict \<Rightarrow> lambda_context \<Rightarrow> obs \<Rightarrow> (pydict \<times> obs) option" where
  "lambda_handler lb event context s =
     (case lambda_try lb event s of
        None \<Rightarrow> None
      | Some (Inr resp, s1) \<Rightarrow> Some (resp, s1)
      | Some (Inl (ValidationError t errs), s1) \<Rightarrow>
          Some ([(''statusCode'', JInt 400),
                 (''body'', JStr (json_dumps (JObj [(''error'', JStr ''Invalid input''),
                                                    (''details'', JList (map verror_json errs))])))],
                log ERROR ''Validation error''
                  [(''error'', JStr (str_exn lb (ValidationError t errs)))] s1)
      | Some (Inl e, s1) \<Rightarrow>
          Some ([(''statusCode'', JInt 500),
                 (''body'', JStr (json_dumps (JObj [(''error'', JStr ''Internal server error'')])))],
                log ERROR ''Unexpected error'' [(''error'', JStr (str_exn lb e))] s1))"

section \<open>Notions used in the properties\<close>

text \<open>
  The entry \<open>inner\<close> of the dict at the key \<open>outer\<close> of an event, when there is one;
  whether such an entry is present and non-empty (a string with at least one character;
  for a value that is no string, a value that Python counts as true); and the
  correlation id as the specification words it: the header \<^verbatim>\<open>x-correlation-id\<close>, else the
  gateway's \<^verbatim>\<open>requestId\<close>, else the generated identifier.
\<close>

definition entry :: "pydict \<Rightarrow> string \<Rightarrow> string \<Rightarrow> json option" where
  "entry event outer inner =
     (case map_of event outer of Some (JObj d) \<Rightarrow> map_of d inner | _ \<Rightarrow> None)"

fun present_nonempty :: "json option \<Rightarrow> bool" where
  "present_nonempty None = False"
| "present_nonempty (Some v) = truthy v"

definition spec_correlation_id :: "env \<Rightarrow> pydict \<Rightarrow> json" where
  "spec_correlation_id en event =
     (if present_nonempty (entry event ''headers'' ''x-correlation-id'')
      then the (entry event ''headers'' ''x-correlation-id'')
      else if present_nonempty (entry event ''requestContext'' ''requestId'')
      then the (entry event ''requestContext'' ''requestId'')
      else JStr (str_uuid (uuid4 en)))"

text \<open>The parts of a response, and how often a metric was added.\<close>

definition response_header :: "pydict \<Rightarrow> string \<Rightarrow> json option" where
  "response_header resp h = entry resp ''headers'' h"

definition status_code :: "pydict \<Rightarrow> json" where
  "status_code resp = dict_get resp ''statusCode''"

definition response_body :: "pydict \<Rightarrow> json" where
  "response_body resp = dict_get resp ''body''"

definition metric_count :: "string \<Rightarrow> obs \<Rightarrow> nat" where
  "metric_count n s = length (filter (\<lambda>m. fst m = n) (metrics s))"

text \<open>The fixtures of \<^verbatim>\<open>tests/conftest.py\<close>, and a context with the two attributes that
  \<^verbatim>\<open>handler\<close> reads.\<close>

definition api_gateway_event :: pydict where
  "api_gateway_event =
     [(''resource'', JStr ''/users''), (''path'', JStr ''/users''),
      (''httpMethod'', JStr ''POST''),
      (''headers'', JObj [(''Content-Type'', JStr ''application/json''),
                          (''Accept'', JStr ''application/json'')]),
      (''queryStringParameters'', JNull), (''pathParameters'', JNull),
      (''body'', JNull), (''isBase64Encoded'', JBool False)]"

definition MockContext :: lambda_context where
  "MockContext =
     [(''function_name'', JStr ''test-function''), (''memory_limit_in_mb'', JInt 128),
      (''invoked_function_arn'',
         JStr ''arn:aws:lambda:us-east-1:123456789012:function:test-function''),
      (''aws_request_id'', JStr ''test-request-id'')]"

definition full_context :: lambda_context where
  "full_context = [(''function_name'', JStr ''test-function''),
                   (''request_id'', JStr ''test-request-id'')]"

definition test_env :: env where
  "test_env = \<lparr>SERVICE_NAME = ''user-api'', STAGE = ''dev'', uuid4 = 0, cold_start = False,
                exn_str = exn_name\<rparr>"

definition test_libs :: libs where
  "test_libs = \<lparr>lax_int = (\<lambda>_. None), str_exn = exn_name\<rparr>"

definition no_obs :: obs where
  "no_obs = \<lparr>logs = [], appended_keys = [], metrics = [], subsegments = [], annotations = [],
             metadata = []\<rparr>"

text \<open>The state in which \<^verbatim>\<open>handler\<close> enters its \<^verbatim>\<open>try\<close>: lines 61, 64 and 78 have run.\<close>

definition started :: "json \<Rightarrow> pydict \<Rightarrow> obs \<Rightarrow> obs" where
  "started cid ex s =
     add_metric ''RequestCount'' 1 (log INFO ''Request received'' ex
       (append_keys ''correlation_id'' cid s))"

text \<open>The events that the properties of \<^verbatim>\<open>handler\<close> are evaluated on.\<close>

definition header_event :: pydict where
  "header_event = [(''headers'', JObj [(''x-correlation-id'', JStr ''c-1'')]),
                   (''requestContext'', JObj [(''requestId'', JStr ''r-1'')]),
                   (''pathParameters'', JObj [(''user_id'', JStr ''abc'')])]"

definition null_headers_event :: pydict where
  "null_headers_event = [(''headers'', JNull)]"

definition no_user_id_event :: pydict where
  "no_user_id_event = [(''headers'', JNull), (''pathParameters'', JNull)]"

definition abc_event :: pydict where
  "abc_event = [(''headers'', JNull), (''pathParameters'', JObj [(''user_id'', JStr ''abc'')])]"

definition lookup_event :: pydict where
  "lookup_event = dict_set api_gateway_event ''pathParameters'' (JObj [(''user_id'', JStr ''abc'')])"

definition empty_id_event :: pydict where
  "empty_id_event = [(''requestContext'', JObj [(''requestId'', JStr ''r-1'')]),
                     (''pathParameters'', JObj [(''user_id'', JStr [])])]"

text \<open>The bodies that \<^verbatim>\<open>tests/conftest.py\<close> and \<^verbatim>\<open>tests/test_lambda_function.py\<close> put in the
  event (\<^verbatim>\<open>json.dumps\<close> of the two payloads, and the malformed text).\<close>

definition valid_user_text :: string where
  "valid_user_text = ''{\"name\": \"John Doe\", \"email\": \"john@example.com\", \"age\": 30}''"

definition invalid_user_text :: string where
  "invalid_user_text = ''{\"name\": \"Jane Doe\", \"age\": 25}''"

definition api_event_with_valid_user :: pydict where
  "api_event_with_valid_user = dict_set api_gateway_event ''body'' (JStr valid_user_text)"

definition api_event_with_invalid_user :: pydict where
  "api_event_with_invalid_user = dict_set api_gateway_event ''body'' (JStr invalid_user_text)"

definition empty_body_event :: pydict where
  "empty_body_event = dict_set api_gateway_event ''body'' (JStr ''{}'')"

definition malformed_event :: pydict where
  "malformed_event = dict_set api_gateway_event ''body'' (JStr ''not valid json{'')"

text \<open>
  For the round trip: the text of one member of an object; a text that ends a number (it
  does not go on with a digit, a fraction or an exponent); and the values whose integers
  have at most 4300 digits, which are the values the decoder returns.
\<close>

definition ends_number :: "string \<Rightarrow> bool" where
  "ends_number r = (case r of [] \<Rightarrow> True | c # _ \<Rightarrow> \<not> is_digit c \<and> c \<noteq> CHR ''.'' \<and> c \<noteq> CHR ''e'' \<and> c \<noteq> CHR ''E'')"



section \<open>Properties of the user-lookup handler\<close>

lemma py_get_Inr: "py_get v k = Inr x \<Longrightarrow> \<exists>d. v = JObj d \<and> x = dict_get d k"
  by (cases v) auto

lemma correlation_id_spec:
  assumes "correlation_id en event = Inr cid"
  shows "cid = spec_correlation_id en event"
  using assms
  unfolding correlation_id_def spec_correlation_id_def entry_def dict_get_default_def
  by (auto split: sum.splits if_splits option.splits json.splits dest!: py_get_Inr
           simp: dict_get_def)

lemma str_uuid_nonempty: "str_uuid n \<noteq> []"
  by (simp add: str_uuid_def Let_def)

lemma spec_correlation_id_truthy: "truthy (spec_correlation_id en event)"
  unfolding spec_correlation_id_def
  by (auto simp: str_uuid_nonempty split: option.splits elim: present_nonempty.elims)

lemma handler_try_header:
  "handler_try cid event s = (Inr resp, s') \<Longrightarrow>
     response_header resp ''X-Correlation-Id'' = Some cid"
  unfolding handler_try_def Let_def response_header_def entry_def
  by (auto split: sum.splits prod.splits)

lemma handler_returns:
  assumes "handler en event context s = (Inr resp, s')"
  shows "\<exists>cid. correlation_id en event = Inr cid \<and>
           response_header resp ''X-Correlation-Id'' = Some cid"
  using assms
  unfolding handler_def Let_def on_validation_error_def on_exception_def
  by (auto split: sum.splits prod.splits exn.splits dest!: handler_try_header
           simp: response_header_def entry_def)

text \<open>
  Claim C1. Whenever \<^verbatim>\<open>handler\<close> returns a response, on the 200, the 400 or the 500 path,
  the headers of the response hold \<^verbatim>\<open>X-Correlation-Id\<close>, and its value is the header
  \<^verbatim>\<open>x-correlation-id\<close> of the event when that is present and non-empty, else the
  \<^verbatim>\<open>requestId\<close> of \<^verbatim>\<open>requestContext\<close> when that is present and non-empty, else the
  generated identifier; in each case the value is non-empty.
\<close>

theorem correlation_header_resolved:
  assumes "handler en event context s = (Inr resp, s')"
  shows "response_header resp ''X-Correlation-Id'' = Some (spec_correlation_id en event)
         \<and> truthy (spec_correlation_id en event)"
  using handler_returns [OF assms] correlation_id_spec spec_correlation_id_truthy by auto

lemma UserRequest_new_cases:
  "UserRequest_new v = Inr \<lparr>user_id = the_str v\<rparr> \<and> (\<exists>u. v = JStr u \<and> 1 \<le> length u \<and> length u \<le> 50)
   \<or> (\<exists>errs. UserRequest_new v = Inl (ValidationError ''UserRequest'' errs) \<and> errs \<noteq> [])"
  by (cases v) (auto simp: UserRequest_new_def the_str_def Suc_le_eq)

lemma UserRequest_new_valid:
  "1 \<le> length u \<Longrightarrow> length u \<le> 50 \<Longrightarrow> UserRequest_new (JStr u) = Inr \<lparr>user_id = u\<rparr>"
  by (auto simp: UserRequest_new_def)

lemma handler_try_valid:
  assumes "path_user_id event = Inr (JStr u)" "1 \<le> length u" "length u \<le> 50"
  shows "handler_try cid event s =
    (Inr [(''statusCode'', JInt 200),
          (''headers'', JObj [(''Content-Type'', JStr ''application/json''),
                             (''X-Correlation-Id'', cid)]),
          (''body'', JStr (model_dump_json \<lparr>r_user_id = u, r_name = ''John Doe'',
                       r_email = ''john@example.com'', r_status = ''active''\<rparr>))],
     log INFO ''Request successful'' [(''status_code'', JInt 200), (''user_id'', JStr u)]
       (add_metric ''SuccessCount'' 1 (snd (get_user_from_database u s))))"
  using assms
  by (simp add: handler_try_def UserRequest_new_valid get_user_from_database_def Let_def
        subscript_def UserResponse_new_def str_field_def the_str_def)

lemma handler_try_invalid:
  assumes "path_user_id event = Inr v" "UserRequest_new v = Inl e"
  shows "handler_try cid event s = (Inl e, s)"
  using assms by (simp add: handler_try_def)

lemma handler_valid:
  assumes "correlation_id en event = Inr cid"
    and "request_received_extra en event context = Inr ex"
    and "path_user_id event = Inr (JStr u)" "1 \<le> length u" "length u \<le> 50"
  shows "handler en event context s =
    (Inr [(''statusCode'', JInt 200),
          (''headers'', JObj [(''Content-Type'', JStr ''application/json''),
                             (''X-Correlation-Id'', cid)]),
          (''body'', JStr (model_dump_json \<lparr>r_user_id = u, r_name = ''John Doe'',
                       r_email = ''john@example.com'', r_status = ''active''\<rparr>))],
     log INFO ''Request successful'' [(''status_code'', JInt 200), (''user_id'', JStr u)]
       (add_metric ''SuccessCount'' 1
          (snd (get_user_from_database u (started cid ex s)))))"
  using assms(1,2) handler_try_valid [OF assms(3-5)]
  by (simp add: handler_def Let_def started_def)

lemma handler_invalid:
  assumes "correlation_id en event = Inr cid"
    and "request_received_extra en event context = Inr ex"
    and "path_user_id event = Inr v"
    and "UserRequest_new v = Inl (ValidationError t errs)"
  shows "handler en event context s =
    (Inr [(''statusCode'', JInt 400),
          (''headers'', JObj [(''X-Correlation-Id'', cid)]),
          (''body'', JStr (json_dumps (JObj [(''error'', JStr ''Invalid request''),
                                             (''details'', JList (map verror_json errs))])))],
     add_metric ''ValidationErrors'' 1
       (log WARNING ''Validation error''
          [(''status_code'', JInt 400), (''error_code'', JStr ''ValidationError''),
           (''error_message'', JStr (exn_str en (ValidationError t errs)))]
          (started cid ex s)))"
  using assms(1,2) handler_try_invalid [OF assms(3,4)]
  by (simp add: handler_def Let_def started_def on_validation_error_def)

lemma handler_attribute_error:
  assumes "correlation_id en event = Inr cid"
    and "request_received_extra en event context = Inr ex"
    and "path_user_id event = Inl e"
  shows "\<exists>s'. handler en event context s =
    (Inr [(''statusCode'', JInt 500),
          (''headers'', JObj [(''X-Correlation-Id'', cid)]),
          (''body'', JStr (json_dumps (JObj [(''error'', JStr ''Internal server error'')])))], s')"
proof -
  from assms(3) obtain a where "e = AttributeError a"
    by (auto simp: path_user_id_def Let_def elim!: py_get_default.elims split: if_splits)
  with assms show ?thesis
    by (simp add: handler_def Let_def handler_try_def on_exception_def)
qed

lemma metrics_simps [simp]:
  "metrics (log l m ex s) = metrics s"
  "metrics (append_keys k v s) = metrics s"
  "metrics (add_metric n x s) = metrics s @ [(n, x)]"
  "metrics (snd (get_user_from_database u s)) = metrics s"
  by (simp_all add: log_def append_keys_def add_metric_def get_user_from_database_def Let_def
        begin_subsegment_def put_annotation_def put_metadata_def)

lemma subsegments_simps [simp]:
  "subsegments (log l m ex s) = subsegments s"
  "subsegments (append_keys k v s) = subsegments s"
  "subsegments (add_metric n x s) = subsegments s"
  "subsegments (snd (get_user_from_database u s)) = subsegments s @ [''## get_user_from_database'']"
  by (simp_all add: log_def append_keys_def add_metric_def get_user_from_database_def Let_def
        begin_subsegment_def put_annotation_def put_metadata_def)

lemma annotations_simps [simp]:
  "annotations (log l m ex s) = annotations s"
  "annotations (append_keys k v s) = annotations s"
  "annotations (add_metric n x s) = annotations s"
  by (simp_all add: log_def append_keys_def add_metric_def)

lemma metadata_simps [simp]:
  "metadata (log l m ex s) = metadata s"
  "metadata (append_keys k v s) = metadata s"
  "metadata (add_metric n x s) = metadata s"
  by (simp_all add: log_def append_keys_def add_metric_def)

text \<open>
  Claim C8. When the argument that lines 82 and 83 pass to \<^verbatim>\<open>UserRequest\<close> fails
  validation, no invocation opens the subsegment of \<^verbatim>\<open>get_user_from_database\<close> or writes
  its annotation and metadata, none adds \<^verbatim>\<open>SuccessCount\<close>, and none returns status 200.
\<close>

theorem validation_failure_skips_lookup:
  assumes "path_user_id event = Inr v" and "UserRequest_new v = Inl e"
    and "handler en event context s = (r, s')"
  shows "subsegments s' = subsegments s \<and> annotations s' = annotations s
         \<and> metadata s' = metadata s
         \<and> metric_count ''SuccessCount'' s' = metric_count ''SuccessCount'' s
         \<and> (\<forall>resp. r = Inr resp \<longrightarrow> status_code resp \<noteq> JInt 200)"
proof (cases "correlation_id en event")
  case (Inl a)
  with assms(3) show ?thesis by (auto simp: handler_def)
next
  case cid: (Inr cid)
  show ?thesis
  proof (cases "request_received_extra en event context")
    case (Inl a)
    with cid assms(3) show ?thesis by (auto simp: handler_def Let_def metric_count_def)
  next
    case (Inr ex)
    from assms(2) obtain t errs where e: "e = ValidationError t errs"
      using UserRequest_new_cases [of v] by auto
    from handler_invalid [OF cid Inr assms(1) assms(2) [unfolded e]] assms(3)
    show ?thesis
      by (auto simp: started_def metric_count_def status_code_def dict_get_def)
  qed
qed

lemma header_event_facts:
  "correlation_id test_env header_event = Inr (JStr ''c-1'')"
  "path_user_id header_event = Inr (JStr ''abc'')"
  "spec_correlation_id test_env header_event = JStr ''c-1''"
  by (simp_all add: correlation_id_def header_event_def dict_get_default_def dict_get_def
        path_user_id_def spec_correlation_id_def entry_def)

lemma full_context_extra:
  "\<exists>ex. request_received_extra en event full_context = Inr ex"
  by (simp add: request_received_extra_def getattr_def full_context_def)

theorem correlation_header_resolved_witness:
  "(\<exists>resp s'. handler test_env header_event full_context no_obs = (Inr resp, s')
      \<and> response_header resp ''X-Correlation-Id'' = Some (JStr ''c-1''))"
proof -
  obtain ex where ex: "request_received_extra test_env header_event full_context = Inr ex"
    using full_context_extra by blast
  from handler_valid [OF header_event_facts(1) ex header_event_facts(2)]
  obtain resp s' where run: "handler test_env header_event full_context no_obs = (Inr resp, s')"
    by simp
  from correlation_header_resolved [OF run] run show ?thesis
    by (simp add: header_event_facts(3))
qed

lemma empty_id_event_facts:
  "path_user_id empty_id_event = Inr (JStr [])"
  "UserRequest_new (JStr []) = Inl (ValidationError ''UserRequest''
      [\<lparr>etype = ''string_too_short'', eloc = ''user_id'',
        emsg = ''String should have at least 1 character'', einput = JStr []\<rparr>])"
  by (simp_all add: path_user_id_def empty_id_event_def dict_get_def UserRequest_new_def
        dict_get_default_def)

theorem validation_failure_skips_lookup_witness:
  "path_user_id empty_id_event = Inr (JStr [])
   \<and> isl (UserRequest_new (JStr []))
   \<and> subsegments (snd (handler test_env empty_id_event full_context no_obs)) = []
   \<and> annotations (snd (handler test_env empty_id_event full_context no_obs)) = []
   \<and> metric_count ''SuccessCount'' (snd (handler test_env empty_id_event full_context no_obs)) = 0"
  using validation_failure_skips_lookup [OF empty_id_event_facts,
          of test_env full_context no_obs
             "fst (handler test_env empty_id_event full_context no_obs)"
             "snd (handler test_env empty_id_event full_context no_obs)"]
  by (simp add: empty_id_event_facts no_obs_def metric_count_def)

text \<open>
  Claim C2. \<^verbatim>\<open>handler\<close> does not return a response for every event and context: the
  statements before the \<^verbatim>\<open>try\<close> raise outside every \<^verbatim>\<open>except\<close> clause. With
  \<^verbatim>\<open>"headers": None\<close> line 55 raises \<^verbatim>\<open>AttributeError\<close>, and with the context of
  \<^verbatim>\<open>tests/conftest.py\<close>, which has \<^verbatim>\<open>aws_request_id\<close> and no \<^verbatim>\<open>request_id\<close>, line 70 does.
\<close>

theorem handler_raises_before_try:
  "fst (handler test_env null_headers_event full_context no_obs) = Inl (AttributeError ''get'')
   \<and> fst (handler test_env api_gateway_event MockContext no_obs)
       = Inl (AttributeError ''request_id'')"
  by (simp add: handler_def null_headers_event_def correlation_id_def dict_get_default_def
        api_gateway_event_def dict_get_def MockContext_def request_received_extra_def
        getattr_def Let_def)

text \<open>
  Claim C3. Two invocations without a \<^verbatim>\<open>user_id\<close> path parameter that return no 400
  response: the exception of the statements before the \<^verbatim>\<open>try\<close> leaves the handler.
\<close>

theorem missing_user_id_raises:
  "fst (handler test_env no_user_id_event full_context no_obs) = Inl (AttributeError ''get'')
   \<and> path_user_id no_user_id_event = Inr (JStr [])
   \<and> fst (handler test_env api_gateway_event MockContext no_obs)
       = Inl (AttributeError ''request_id'')
   \<and> path_user_id api_gateway_event = Inr (JStr [])"
  by (simp add: handler_def no_user_id_event_def correlation_id_def dict_get_default_def
        api_gateway_event_def dict_get_def MockContext_def request_received_extra_def
        getattr_def Let_def path_user_id_def)

text \<open>
  Claim C4. Two invocations with the \<^verbatim>\<open>user_id\<close> \<^verbatim>\<open>abc\<close> that return no 200 response,
  for the same reason.
\<close>

theorem valid_user_id_raises:
  "fst (handler test_env abc_event full_context no_obs) = Inl (AttributeError ''get'')
   \<and> path_user_id abc_event = Inr (JStr ''abc'')
   \<and> fst (handler test_env lookup_event MockContext no_obs)
       = Inl (AttributeError ''request_id'')
   \<and> path_user_id lookup_event = Inr (JStr ''abc'')"
  by (simp add: handler_def abc_event_def correlation_id_def dict_get_default_def
        api_gateway_event_def dict_get_def MockContext_def request_received_extra_def
        getattr_def Let_def path_user_id_def lookup_event_def)

text \<open>
  What the handler does once the statements before the \<^verbatim>\<open>try\<close> have passed: an absent,
  empty or too long \<^verbatim>\<open>user_id\<close> gives the 400 response and the metrics \<^verbatim>\<open>RequestCount\<close>
  and \<^verbatim>\<open>ValidationErrors\<close>, once each and no other; a \<^verbatim>\<open>user_id\<close> of 1 to 50 characters
  gives the 200 response with the stub's record and the metrics \<^verbatim>\<open>RequestCount\<close> and
  \<^verbatim>\<open>SuccessCount\<close>.
\<close>

lemma absent_user_id:
  assumes "map_of event ''pathParameters'' = None \<or> map_of event ''pathParameters'' = Some JNull
           \<or> (\<exists>d. map_of event ''pathParameters'' = Some (JObj d) \<and> map_of d ''user_id'' = None)"
  shows "path_user_id event = Inr (JStr [])"
  using assms by (auto simp: path_user_id_def dict_get_def dict_get_default_def Let_def)

lemma invalid_user_id_response:
  assumes "correlation_id en event = Inr cid"
    and "request_received_extra en event context = Inr ex"
    and "path_user_id event = Inr (JStr u)" and "u = [] \<or> 50 < length u"
    and "handler en event context s = (r, s')"
  shows "\<exists>resp details. r = Inr resp \<and> status_code resp = JInt 400
           \<and> response_body resp = JStr (json_dumps (JObj [(''error'', JStr ''Invalid request''),
                                                           (''details'', JList details)]))
           \<and> details \<noteq> []
           \<and> response_header resp ''X-Correlation-Id'' = Some cid
           \<and> metrics s' = metrics s @ [(''RequestCount'', 1), (''ValidationErrors'', 1)]"
proof -
  from assms(4) obtain errs where
    "UserRequest_new (JStr u) = Inl (ValidationError ''UserRequest'' errs)" "errs \<noteq> []"
    using UserRequest_new_cases [of "JStr u"] by auto
  note run = handler_invalid [OF assms(1,2,3) this(1), of s] and ne = this(2)
  define resp where "resp = [(''statusCode'', JInt 400),
          (''headers'', JObj [(''X-Correlation-Id'', cid)]),
          (''body'', JStr (json_dumps (JObj [(''error'', JStr ''Invalid request''),
                                             (''details'', JList (map verror_json errs))])))]"
  have "r = Inr resp"
    using run assms(5) by (simp add: resp_def)
  moreover have "status_code resp = JInt 400"
    by (simp add: resp_def status_code_def dict_get_def)
  moreover have "response_body resp = JStr (json_dumps (JObj [(''error'', JStr ''Invalid request''),
                                             (''details'', JList (map verror_json errs))]))"
    by (simp add: resp_def response_body_def dict_get_def del: json_dumps.simps)
  moreover have "map verror_json errs \<noteq> []"
    using ne by simp
  moreover have "response_header resp ''X-Correlation-Id'' = Some cid"
    by (simp add: resp_def response_header_def entry_def)
  moreover have "metrics s' = metrics s @ [(''RequestCount'', 1), (''ValidationErrors'', 1)]"
    using run assms(5) by (simp add: started_def)
  ultimately show ?thesis by blast
qed

lemma valid_user_id_response:
  assumes "correlation_id en event = Inr cid"
    and "request_received_extra en event context = Inr ex"
    and "path_user_id event = Inr (JStr u)" and "1 \<le> length u" and "length u \<le> 50"
    and "handler en event context s = (r, s')"
  shows "\<exists>resp. r = Inr resp \<and> status_code resp = JInt 200
           \<and> response_body resp = JStr (model_dump_json \<lparr>r_user_id = u, r_name = ''John Doe'',
                       r_email = ''john@example.com'', r_status = ''active''\<rparr>)
           \<and> response_header resp ''Content-Type'' = Some (JStr ''application/json'')
           \<and> response_header resp ''X-Correlation-Id'' = Some cid
           \<and> metrics s' = metrics s @ [(''RequestCount'', 1), (''SuccessCount'', 1)]"
  using handler_valid [OF assms(1-5)] assms(6)
  by (auto simp: status_code_def response_body_def response_header_def entry_def dict_get_def
        started_def)

section \<open>Properties of the create-user handler\<close>



lemma loads_body_text:
  "dict_get_default event ''body'' (JStr ''{}'') = JStr text \<Longrightarrow> loads_body event = json_loads text"
  by (simp add: loads_body_def)



lemma dumps_internal_error:
  "json_dumps (JObj [(''error'', JStr ''Internal server error'')])
     = ''{\"error\": \"Internal server error\"}''"
  by (simp add: dumps_str_def escape_char_def)

text \<open>
  Claim C7. When the body is a text that \<^verbatim>\<open>json.loads\<close> refuses, \<^verbatim>\<open>lambda_handler\<close> returns
  status 500 with exactly the body \<^verbatim>\<open>{"error": "Internal server error"}\<close>, whatever the
  text of the exception, and logs it as an unexpected error, not as a validation error.
\<close>

theorem create_user_malformed_json:
  assumes "dict_get_default event ''body'' (JStr ''{}'') = JStr text"
    and "json_loads text = Some (Inl JSONDecodeError)"
  shows "lambda_handler lb event context s =
           Some ([(''statusCode'', JInt 500),
                  (''body'', JStr ''{\"error\": \"Internal server error\"}'')],
                 log ERROR ''Unexpected error'' [(''error'', JStr (str_exn lb JSONDecodeError))] s)"
  using loads_body_text [OF assms(1)] assms(2) dumps_internal_error
  by (simp add: lambda_handler_def lambda_try_def del: json_dumps.simps)

lemma loads_empty_object: "json_loads ''{}'' = Some (Inr (JObj []))"
  by (simp add: json_loads_def skip_ws_def is_ws_def starts_with_def)

lemma loads_malformed: "json_loads ''not valid json{'' = Some (Inl JSONDecodeError)"
  by (simp add: json_loads_def skip_ws_def is_ws_def starts_with_def is_digit_def digit_val_def)




lemma event_bodies:
  "dict_get_default api_event_with_valid_user ''body'' (JStr ''{}'') = JStr valid_user_text"
  "dict_get_default api_event_with_invalid_user ''body'' (JStr ''{}'') = JStr invalid_user_text"
  "dict_get_default malformed_event ''body'' (JStr ''{}'') = JStr ''not valid json{''"
  "dict_get_default empty_body_event ''body'' (JStr ''{}'') = JStr ''{}''"
  by (simp_all add: dict_get_default_def api_event_with_valid_user_def api_gateway_event_def
        api_event_with_invalid_user_def malformed_event_def empty_body_event_def)



theorem create_user_malformed_json_witness:
  "lambda_handler test_libs malformed_event MockContext no_obs =
     Some ([(''statusCode'', JInt 500),
            (''body'', JStr ''{\"error\": \"Internal server error\"}'')],
           log ERROR ''Unexpected error''
             [(''error'', JStr (str_exn test_libs JSONDecodeError))] no_obs)"
  using create_user_malformed_json [OF event_bodies(3) loads_malformed,
          of test_libs MockContext no_obs]
  by simp

lemma User_new_empty:
  "User_new lb (JObj []) = Inl (ValidationError ''User''
     [missing ''name'' [], missing ''email'' [], missing ''age'' []])"
  by (simp add: User_new_def required_str_def required_int_def)

lemma map_of_append_absent:
  "map_of event k = None \<Longrightarrow> map_of (event @ [(k, v)]) k = Some v"
  by (simp add: map_add_def)

text \<open>
  Claim C10. An event without the key \<^verbatim>\<open>body\<close> gets status 400 with the three errors of
  the missing fields \<^verbatim>\<open>name\<close>, \<^verbatim>\<open>email\<close> and \<^verbatim>\<open>age\<close>, and adding the body \<^verbatim>\<open>{}\<close> to the
  event changes nothing in what \<^verbatim>\<open>lambda_handler\<close> returns and logs.
\<close>

theorem create_user_no_body_key:
  assumes "map_of event ''body'' = None"
  shows "lambda_handler lb event context s =
           Some ([(''statusCode'', JInt 400),
                  (''body'', JStr (json_dumps (JObj [(''error'', JStr ''Invalid input''),
                     (''details'', JList (map verror_json
                        [missing ''name'' [], missing ''email'' [], missing ''age'' []]))])))],
                 log ERROR ''Validation error''
                   [(''error'', JStr (str_exn lb (ValidationError ''User''
                      [missing ''name'' [], missing ''email'' [], missing ''age'' []])))] s)
         \<and> lambda_handler lb (event @ [(''body'', JStr ''{}'')]) context s
             = lambda_handler lb event context s"
proof -
  have 1: "loads_body event = Some (Inr (JObj []))"
    using assms loads_empty_object by (simp add: loads_body_def dict_get_default_def)
  have 2: "loads_body (event @ [(''body'', JStr ''{}'')]) = Some (Inr (JObj []))"
    using map_of_append_absent [OF assms] loads_empty_object
    by (simp add: loads_body_def dict_get_default_def)
  show ?thesis
    using 1 2 User_new_empty [of lb]
    by (simp add: lambda_handler_def lambda_try_def del: json_dumps.simps)
qed

theorem create_user_no_body_key_witness:
  "map_of [(''httpMethod'', JStr ''POST'')] ''body'' = None
   \<and> map_option (\<lambda>r. status_code (fst r))
        (lambda_handler test_libs [(''httpMethod'', JStr ''POST'')] MockContext no_obs)
       = Some (JInt 400)"
  using create_user_no_body_key [of "[(''httpMethod'', JStr ''POST'')]" test_libs MockContext no_obs]
  by (simp add: status_code_def dict_get_def del: json_dumps.simps)

section \<open>Decoding what \<^verbatim>\<open>json.dumps\<close> wrote\<close>

lemma hex_val_hex_digit:
  assumes "k < 16"
  shows "hex_val (hex_digit k) = Some k"
proof -
  from assms consider "k = 0" | "k = 1" | "k = 2" | "k = 3" | "k = 4" | "k = 5" | "k = 6" | "k = 7" | "k = 8" | "k = 9" | "k = 10" | "k = 11" | "k = 12" | "k = 13" | "k = 14" | "k = 15"
    by (fastforce simp: less_Suc_eq numeral_eq_Suc)
  then show ?thesis
    by cases (simp_all add: hex_digit_def hex_val_def)
qed

lemma hex4_of_char:
  "hex4 (CHR ''0'') (CHR ''0'') (hex_digit ((of_char c :: nat) div 16))
        (hex_digit ((of_char c :: nat) mod 16)) = Some (of_char c)"
proof -
  have "(of_char c :: nat) < 256" by simp
  then have "(of_char c :: nat) div 16 < 16" by arith
  then show ?thesis
    by (simp add: hex4_def hex_val_hex_digit) (simp add: hex_val_def)
qed

lemma scan_string_escape_char:
  "scan_string (escape_char c @ rest) = scan_map ((#) c) (scan_string rest)"
proof -
  have u: "\<not> (of_char c :: nat) < 256 \<Longrightarrow> False" by simp
  show ?thesis
    unfolding escape_char_def
    by (auto simp: unescape_def hex4_of_char)
qed

lemma scan_string_escaped:
  "scan_string (concat (map escape_char s) @ CHR ''\"'' # rest) = Scanned s rest"
  by (induction s) (simp_all add: scan_string_escape_char del: scan_string.simps, simp)

lemma scan_string_dumps_str:
  "scan_string (tl (dumps_str s) @ rest) = Scanned s rest"
  by (simp add: dumps_str_def scan_string_escaped del: scan_string.simps)










lemma is_digit_simps [simp]:
  "\<not> is_digit (CHR ''\"'')" "\<not> is_digit (CHR ''{'')" "\<not> is_digit (CHR ''['')"
  "\<not> is_digit (CHR ''n'')" "\<not> is_digit (CHR ''t'')" "\<not> is_digit (CHR ''f'')"
  "\<not> is_digit (CHR ''-'')" "\<not> is_digit (CHR '','')" "\<not> is_digit (CHR ''}'')"
  "\<not> is_digit (CHR '']'')"
  by (simp_all add: is_digit_def digit_val_def)







lemma skip_ws_dumps_str: "skip_ws (dumps_str k @ r) = dumps_str k @ r"
  by (simp add: dumps_str_def skip_ws_def is_ws_def)


lemma ends_number_simps [simp]:
  "ends_number (CHR ''}'' # r)" "ends_number (CHR '','' # r)" "ends_number []"
  by (simp_all add: ends_number_def)









lemma scan_map_Scanned:
  "scan_map f x = Scanned v r \<longleftrightarrow> (\<exists>u. x = Scanned u r \<and> v = f u)"
  by (cases x) auto


















section \<open>The budget of the decoder\<close>

text \<open>
  Every scan that succeeds takes at least one character, so the budget that \<open>json_loads\<close>
  gives is never used up: a larger one leads to the same result.
\<close>

lemma length_skip_ws: "length (skip_ws s) \<le> length s"
  by (simp add: skip_ws_def length_dropWhile_le)

lemma scan_string_cases:
  assumes "scan_string (c # r0) = Scanned k r"
  shows "r = r0 \<or> (\<exists>t k'. length t \<le> length r0 \<and> scan_string t = Scanned k' r)"
proof (cases "c = CHR ''\"''")
  case True
  with assms show ?thesis by simp
next
  case nq: False
  show ?thesis
  proof (cases "c = CHR 0x5C")
    case False
    with nq assms obtain k' where "scan_string r0 = Scanned k' r"
      by (auto simp: scan_map_Scanned split: if_splits)
    then show ?thesis by auto
  next
    case bs: True
    show ?thesis
    proof (cases r0)
      case Nil
      with bs nq assms show ?thesis by simp
    next
      case (Cons e r1)
      note r0 = this
      show ?thesis
      proof (cases "e = CHR ''u''")
        case False
        with bs nq r0 assms obtain k' where "scan_string r1 = Scanned k' r"
          by (auto simp: scan_map_Scanned split: option.splits)
        with r0 show ?thesis by auto
      next
        case u: True
        with bs nq r0 assms obtain h1 h2 h3 h4 r2 k' where
          "r1 = h1 # h2 # h3 # h4 # r2" "scan_string r2 = Scanned k' r"
          by (auto simp: scan_map_Scanned split: option.splits list.splits if_splits)
        with r0 show ?thesis by auto
      qed
    qed
  qed
qed

lemma scan_string_length: "scan_string s = Scanned k r \<Longrightarrow> length r < length s"
proof (induction "length s" arbitrary: s k rule: less_induct)
  case less
  show ?case
  proof (cases s)
    case Nil
    with less.prems show ?thesis by simp
  next
    case (Cons c r0)
    from scan_string_cases [OF less.prems [unfolded Cons]]
    show ?thesis
    proof
      assume "r = r0"
      then show ?thesis by (simp add: Cons)
    next
      assume "\<exists>t k'. length t \<le> length r0 \<and> scan_string t = Scanned k' r"
      then obtain t k' where t: "length t \<le> length r0" "scan_string t = Scanned k' r" by blast
      then have "length t < length s" by (simp add: Cons)
      from less.hyps [OF this t(2)] t(1) show ?thesis by (simp add: Cons)
    qed
  qed
qed

lemma scan_int_length: "scan_int neg s = Scanned v r \<Longrightarrow> length r < length s"
  by (cases s) (auto simp: scan_int_def Let_def length_dropWhile_le less_Suc_eq_le split: if_splits)

lemma skip_ws_Cons_length: "skip_ws r = c # r1 \<Longrightarrow> length r1 < length r"
  using length_skip_ws [of r] by simp

lemma scan_once_length_cases:
  assumes "scan_once (Suc n) s = Scanned v r"
  shows "length r < length s
         \<or> (\<exists>kvs t. length t < length s \<and> scan_members n t = Scanned kvs r)
         \<or> (\<exists>vs t. length t < length s \<and> scan_items n t = Scanned vs r)"
proof (cases s)
  case Nil
  with assms show ?thesis by simp
next
  case (Cons c r0)
  note s = this
  have sk: "length (skip_ws r0) < length s" using length_skip_ws [of r0] by (simp add: s)
  consider (str) "c = CHR ''\"''" | (obj) "c = CHR ''{''" | (arr) "c = CHR ''[''"
    | (other) "c \<noteq> CHR ''\"''" "c \<noteq> CHR ''{''" "c \<noteq> CHR ''[''" by blast
  then show ?thesis
  proof cases
    case str
    with assms s obtain x where "scan_string r0 = Scanned x r"
      by (auto simp: scan_map_Scanned simp del: scan_string.simps)
    from scan_string_length [OF this] show ?thesis by (simp add: s)
  next
    case obj
    with assms s sk show ?thesis
      by (auto simp: scan_map_Scanned split: if_splits)
  next
    case arr
    with assms s sk show ?thesis
      by (auto simp: scan_map_Scanned split: if_splits)
  next
    case other
    with assms s have
      "(if starts_with ''null'' s then Scanned JNull (drop 4 s)
        else if starts_with ''true'' s then Scanned (JBool True) (drop 4 s)
        else if starts_with ''false'' s then Scanned (JBool False) (drop 5 s)
        else if is_digit c then scan_int False s
        else if c = CHR ''-'' \<and> (case r0 of [] \<Rightarrow> False | d # _ \<Rightarrow> is_digit d)
          then scan_int True r0
        else if starts_with ''NaN'' s \<or> starts_with ''Infinity'' s
                \<or> starts_with ''-Infinity'' s then Unsupported
        else Malformed) = Scanned v r"
      by (simp only: scan_once.simps list.case if_False)
    then have "length r < length s"
      by (auto simp: s split: if_splits dest!: scan_int_length)
    then show ?thesis by simp
  qed
qed

lemma scan_items_length_cases:
  assumes "scan_items (Suc n) s = Scanned vs r"
  shows "\<exists>v r0. scan_once n s = Scanned v r0 \<and>
           (length r < length r0
            \<or> (\<exists>t us. length t < length r0 \<and> scan_items n t = Scanned us r))"
proof (cases "scan_once n s")
  case (Scanned v r0)
  show ?thesis
  proof (cases "skip_ws r0")
    case Nil
    with assms Scanned show ?thesis by simp
  next
    case (Cons c r1)
    have "length (skip_ws r1) < length r0"
      using skip_ws_Cons_length [OF Cons] length_skip_ws [of r1] by simp
    moreover have "length r1 < length r0" by (rule skip_ws_Cons_length [OF Cons])
    ultimately show ?thesis
      using assms Scanned Cons by (auto simp: scan_map_Scanned split: if_splits)
  qed
qed (use assms in simp_all)

lemma scan_members_length_cases:
  assumes "scan_members (Suc n) s = Scanned kvs r"
  shows "\<exists>v t r0. length t < length s \<and> scan_once n t = Scanned v r0 \<and>
           (length r < length r0
            \<or> (\<exists>t' us. length t' < length r0 \<and> scan_members n t' = Scanned us r))"
proof (cases s)
  case Nil
  with assms show ?thesis by simp
next
  case (Cons q r1)
  note s = this
  show ?thesis
  proof (cases "scan_string r1")
    case (Scanned k r2)
    note k = this
    have l2: "length r2 < length r1" by (rule scan_string_length [OF k])
    show ?thesis
    proof (cases "skip_ws r2")
      case Nil
      with assms s k show ?thesis by (simp del: scan_string.simps split: if_splits)
    next
      case (Cons c r3)
      note r2 = this
      have l3: "length (skip_ws r3) < length s"
        using skip_ws_Cons_length [OF r2] length_skip_ws [of r3] l2 by (simp add: s)
      show ?thesis
      proof (cases "scan_once n (skip_ws r3)")
        case (Scanned v r4)
        note v = this
        show ?thesis
        proof (cases "skip_ws r4")
          case Nil
          with assms s k r2 v show ?thesis by (simp del: scan_string.simps split: if_splits)
        next
          case (Cons c2 r5)
          have "length (skip_ws r5) < length r4" "length r5 < length r4"
            using skip_ws_Cons_length [OF Cons] length_skip_ws [of r5] by simp_all
          with assms s k r2 v Cons have
            "length r < length r4
             \<or> (\<exists>t' us. length t' < length r4 \<and> scan_members n t' = Scanned us r)"
            by (auto simp: scan_map_Scanned simp del: scan_string.simps split: if_splits)
          with v l3 show ?thesis by blast
        qed
      qed (use assms s k r2 in \<open>simp_all del: scan_string.simps split: if_splits\<close>)
    qed
  qed (use assms s in \<open>simp_all del: scan_string.simps split: if_splits\<close>)
qed

lemma scan_length:
  "(\<forall>s v r. scan_once n s = Scanned v r \<longrightarrow> length r < length s)
   \<and> (\<forall>s vs r. scan_items n s = Scanned vs r \<longrightarrow> length r < length s)
   \<and> (\<forall>s kvs r. scan_members n s = Scanned kvs r \<longrightarrow> length r < length s)"
proof (induction n)
  case 0
  show ?case by simp
next
  case (Suc n)
  have once: "length r < length t" if "scan_once n t = Scanned v r" for t v r
    using Suc that by blast
  have items: "length r < length t" if "scan_items n t = Scanned vs r" for t vs r
    using Suc that by blast
  have members: "length r < length t" if "scan_members n t = Scanned kvs r" for t kvs r
    using Suc that by blast
  have 1: "length r < length s" if "scan_once (Suc n) s = Scanned v r" for s v r
    using scan_once_length_cases [OF that] by (auto dest: items members)
  have 2: "length r < length s" if "scan_items (Suc n) s = Scanned vs r" for s vs r
  proof -
    from scan_items_length_cases [OF that] obtain v r0 where
      a: "scan_once n s = Scanned v r0"
      and b: "length r < length r0
              \<or> (\<exists>t us. length t < length r0 \<and> scan_items n t = Scanned us r)"
      by blast
    from b have "length r < length r0" by (auto dest: items)
    with once [OF a] show ?thesis by simp
  qed
  have 3: "length r < length s" if "scan_members (Suc n) s = Scanned kvs r" for s kvs r
  proof -
    from scan_members_length_cases [OF that] obtain v t r0 where
      a: "length t < length s" "scan_once n t = Scanned v r0"
      and b: "length r < length r0
              \<or> (\<exists>t' us. length t' < length r0 \<and> scan_members n t' = Scanned us r)"
      by blast
    from b have "length r < length r0" by (auto dest: members)
    with once [OF a(2)] a(1) show ?thesis by simp
  qed
  from 1 2 3 show ?case by blast
qed

lemma scan_once_length: "scan_once n s = Scanned v r \<Longrightarrow> length r < length s"
  using scan_length [of n] by blast

lemma scan_budget:
  "(\<forall>s m. 2 * length s < n \<and> n \<le> m \<longrightarrow> scan_once n s = scan_once m s)
   \<and> (\<forall>s m. 2 * length s + 1 < n \<and> n \<le> m \<longrightarrow> scan_items n s = scan_items m s)
   \<and> (\<forall>s m. 2 * length s + 1 < n \<and> n \<le> m \<longrightarrow> scan_members n s = scan_members m s)"
proof (induction n)
  case 0
  show ?case by simp
next
  case (Suc n)
  have once: "scan_once n t = scan_once m t" if "2 * length t < n" "n \<le> m" for t m
    using Suc that by blast
  have items: "scan_items n t = scan_items m t" if "2 * length t + 1 < n" "n \<le> m" for t m
    using Suc that by blast
  have members: "scan_members n t = scan_members m t" if "2 * length t + 1 < n" "n \<le> m" for t m
    using Suc that by blast
  have 1: "scan_once (Suc n) s = scan_once m s" if "2 * length s < Suc n" "Suc n \<le> m" for s m
  proof -
    from that(2) obtain m' where m: "m = Suc m'" and nm: "n \<le> m'" by (cases m) auto
    show ?thesis
    proof (cases s)
      case Nil
      then show ?thesis by (simp add: m)
    next
      case (Cons c r)
      have "2 * length (skip_ws r) + 1 < n"
        using length_skip_ws [of r] that(1) by (simp add: Cons)
      then have "scan_items n (skip_ws r) = scan_items m' (skip_ws r)"
        "scan_members n (skip_ws r) = scan_members m' (skip_ws r)"
        using items members nm by blast+
      then show ?thesis
        by (simp add: Cons m del: scan_string.simps)
    qed
  qed
  have 2: "scan_items (Suc n) s = scan_items m s" if "2 * length s + 1 < Suc n" "Suc n \<le> m" for s m
  proof -
    from that(2) obtain m' where m: "m = Suc m'" and nm: "n \<le> m'" by (cases m) auto
    have e: "scan_once n s = scan_once m' s" using once [of s m'] that(1) nm by simp
    show ?thesis
    proof (cases "scan_once m' s")
      case (Scanned v r0)
      have l0: "length r0 < length s" by (rule scan_once_length [OF Scanned])
      show ?thesis
      proof (cases "skip_ws r0")
        case Nil
        with e Scanned show ?thesis by (simp add: m)
      next
        case (Cons c r1)
        have "length (skip_ws r1) < length r0"
          using skip_ws_Cons_length [OF Cons] length_skip_ws [of r1] by simp
        then have "2 * length (skip_ws r1) + 1 < n" using l0 that(1) by simp
        then have "scan_items n (skip_ws r1) = scan_items m' (skip_ws r1)"
          using items nm by blast
        with e Scanned Cons show ?thesis by (simp add: m)
      qed
    qed (use e in \<open>simp_all add: m\<close>)
  qed
  have 3: "scan_members (Suc n) s = scan_members m s" if "2 * length s + 1 < Suc n" "Suc n \<le> m" for s m
  proof -
    from that(2) obtain m' where m: "m = Suc m'" and nm: "n \<le> m'" by (cases m) auto
    show ?thesis
    proof (cases s)
      case Nil
      then show ?thesis by (simp add: m)
    next
      case (Cons q r1)
      note s = this
      show ?thesis
      proof (cases "scan_string r1")
        case (Scanned k r2)
        note k = this
        have l2: "length r2 < length r1" by (rule scan_string_length [OF k])
        show ?thesis
        proof (cases "skip_ws r2")
          case Nil
          with s k show ?thesis by (simp add: m del: scan_string.simps)
        next
          case (Cons c r3)
          note r2 = this
          have l3: "length (skip_ws r3) < length r1"
            using skip_ws_Cons_length [OF r2] length_skip_ws [of r3] l2 by simp
          then have "2 * length (skip_ws r3) < n" using that(1) by (simp add: s)
          then have e: "scan_once n (skip_ws r3) = scan_once m' (skip_ws r3)"
            using once nm by blast
          show ?thesis
          proof (cases "scan_once m' (skip_ws r3)")
            case (Scanned v r4)
            note v = this
            have l4: "length r4 < length (skip_ws r3)" by (rule scan_once_length [OF v])
            show ?thesis
            proof (cases "skip_ws r4")
              case Nil
              with s k r2 e v show ?thesis by (simp add: m del: scan_string.simps)
            next
              case (Cons c2 r5)
              have "length (skip_ws r5) < length r4"
                using skip_ws_Cons_length [OF Cons] length_skip_ws [of r5] by simp
              then have "2 * length (skip_ws r5) + 1 < n" using l4 l3 that(1) by (simp add: s)
              then have "scan_members n (skip_ws r5) = scan_members m' (skip_ws r5)"
                using members nm by blast
              with s k r2 e v Cons show ?thesis by (simp add: m del: scan_string.simps)
            qed
          qed (use s k r2 e in \<open>simp_all add: m del: scan_string.simps\<close>)
        qed
      qed (use s in \<open>simp_all add: m del: scan_string.simps\<close>)
    qed
  qed
  from 1 2 3 show ?case by blast
qed

lemma json_loads_budget:
  assumes "Suc (length s + length s) \<le> m"
  shows "scan_once m (skip_ws s) = scan_once (Suc (length s + length s)) (skip_ws s)"
proof -
  have "2 * length (skip_ws s) < Suc (length s + length s)"
    using length_skip_ws [of s] by simp
  with scan_budget [of "Suc (length s + length s)"] assms show ?thesis by metis
qed

end
